theory Spec2Isabelle
  imports Main
begin

section \<open>Python string primitives used by \<open>tools/rule_transcoder.py\<close>\<close>

text \<open>
  Rule text is a \<open>string\<close>. A character is identified with its code point, so the text
  modelled is the text whose code points are below 256. On this range the classes and
  case mappings below are the ones of Python's \<open>str\<close> and \<open>re\<close> (\<open>\w\<close>, \<open>\s\<close>,
  \<open>str.strip\<close>, \<open>str.lower\<close>, \<open>str.title\<close>, \<open>re.IGNORECASE\<close>), with one exception: the
  title case of the two characters U+00B5 and U+00FF is outside the range (U+039C and
  U+0178), and \<open>title_char\<close> keeps these two characters as they are.
\<close>

text \<open>The characters that \<open>str.lower\<close> changes: it adds 32 to the code point.\<close>

definition is_upper :: "char \<Rightarrow> bool" where
  "is_upper c = ((65 \<le> (of_char c :: nat) \<and> (of_char c :: nat) \<le> 90)
                 \<or> (192 \<le> (of_char c :: nat) \<and> (of_char c :: nat) \<le> 214)
                 \<or> (216 \<le> (of_char c :: nat) \<and> (of_char c :: nat) \<le> 222))"

text \<open>The characters whose title case is the character 32 below.\<close>

definition is_lower :: "char \<Rightarrow> bool" where
  "is_lower c = ((97 \<le> (of_char c :: nat) \<and> (of_char c :: nat) \<le> 122)
                 \<or> (224 \<le> (of_char c :: nat) \<and> (of_char c :: nat) \<le> 246)
                 \<or> (248 \<le> (of_char c :: nat) \<and> (of_char c :: nat) \<le> 254))"

definition is_digit :: "char \<Rightarrow> bool" where
  "is_digit c = (48 \<le> (of_char c :: nat) \<and> (of_char c :: nat) \<le> 57)"

text \<open>The cased characters: the two classes above and U+00AA, U+00B5, U+00BA, U+00DF,
  U+00FF.\<close>

definition is_cased :: "char \<Rightarrow> bool" where
  "is_cased c = (is_upper c \<or> is_lower c
                 \<or> (of_char c :: nat) \<in> {170, 181, 186, 223, 255})"

text \<open>The class \<open>\w\<close>: the cased characters, the digits, the underscore, and the
  numeric characters U+00B2, U+00B3, U+00B9, U+00BC, U+00BD, U+00BE.\<close>

definition is_word :: "char \<Rightarrow> bool" where
  "is_word c = (is_cased c \<or> is_digit c \<or> c = CHR ''_''
                \<or> (of_char c :: nat) \<in> {178, 179, 185, 188, 189, 190})"

text \<open>The class \<open>\s\<close> and the characters \<open>str.strip()\<close> removes: code points 9 to 13
  and 28 to 32, U+0085 and U+00A0.\<close>

definition is_space :: "char \<Rightarrow> bool" where
  "is_space c = ((9 \<le> (of_char c :: nat) \<and> (of_char c :: nat) \<le> 13)
                 \<or> (28 \<le> (of_char c :: nat) \<and> (of_char c :: nat) \<le> 32)
                 \<or> (of_char c :: nat) \<in> {133, 160})"

definition lower_char :: "char \<Rightarrow> char" where
  "lower_char c = (if is_upper c then char_of ((of_char c :: nat) + 32) else c)"

text \<open>The title case of a character; that of U+00DF is the two characters \<open>Ss\<close>.\<close>

definition title_char :: "char \<Rightarrow> string" where
  "title_char c =
     (if is_lower c then [char_of ((of_char c :: nat) - 32)]
      else if (of_char c :: nat) = 223 then ''Ss''
      else [c])"

definition py_lower :: "string \<Rightarrow> string" where
  "py_lower s = map lower_char s"

text \<open>\<open>str.title()\<close>: a character is put in title case when the character before it is
  not cased (or there is none), and in lower case otherwise.\<close>

fun title_from :: "bool \<Rightarrow> string \<Rightarrow> string" where
  "title_from prev [] = []"
| "title_from prev (c # cs) =
     (if prev then [lower_char c] else title_char c) @ title_from (is_cased c) cs"

definition py_title :: "string \<Rightarrow> string" where
  "py_title s = title_from False s"

definition py_strip :: "string \<Rightarrow> string" where
  "py_strip s = rev (dropWhile is_space (rev (dropWhile is_space s)))"

text \<open>\<open>s.rstrip(chars)\<close>.\<close>

definition py_rstrip :: "string \<Rightarrow> string \<Rightarrow> string" where
  "py_rstrip chars s = rev (dropWhile (\<lambda>c. c \<in> set chars) (rev s))"

definition py_startswith :: "string \<Rightarrow> string \<Rightarrow> bool" where
  "py_startswith p s = (take (length p) s = p)"

definition py_endswith :: "string \<Rightarrow> string \<Rightarrow> bool" where
  "py_endswith p s = (length p \<le> length s \<and> drop (length s - length p) s = p)"

text \<open>\<open>sub in s\<close>.\<close>

fun py_in :: "string \<Rightarrow> string \<Rightarrow> bool" where
  "py_in sub [] = (sub = [])"
| "py_in sub (c # cs) = (py_startswith sub (c # cs) \<or> py_in sub cs)"

text \<open>\<open>s.replace(old, new)\<close>: every occurrence of \<open>old\<close>, leftmost first and without
  overlap; an empty \<open>old\<close> matches before every character and at the end.\<close>

fun replace_from :: "string \<Rightarrow> string \<Rightarrow> string \<Rightarrow> string" where
  "replace_from old new [] = []"
| "replace_from old new (c # cs) =
     (if py_startswith old (c # cs)
      then new @ replace_from old new (drop (length old - 1) cs)
      else c # replace_from old new cs)"

definition py_replace :: "string \<Rightarrow> string \<Rightarrow> string \<Rightarrow> string" where
  "py_replace old new s =
     (if old = [] then new @ concat (map (\<lambda>c. c # new) s) else replace_from old new s)"

text \<open>\<open>s.split(d)\<close> for a one-character separator, and \<open>d.join(xs)\<close>.\<close>

fun py_split :: "char \<Rightarrow> string \<Rightarrow> string list" where
  "py_split d [] = [[]]"
| "py_split d (c # cs) =
     (if c = d then [] # py_split d cs
      else (case py_split d cs of w # ws \<Rightarrow> (c # w) # ws | [] \<Rightarrow> [[c]]))"

fun py_join :: "string \<Rightarrow> string list \<Rightarrow> string" where
  "py_join d [] = []"
| "py_join d [x] = x"
| "py_join d (x # y # zs) = x @ d @ py_join d (y # zs)"

section \<open>Dictionaries in insertion order\<close>

text \<open>A Python \<open>dict\<close> iterates in insertion order; storing under a key that is present
  keeps the key's position and replaces its value.\<close>

type_synonym ('k, 'v) dict = "('k \<times> 'v) list"

fun dict_set :: "('k, 'v) dict \<Rightarrow> 'k \<Rightarrow> 'v \<Rightarrow> ('k, 'v) dict" where
  "dict_set [] k v = [(k, v)]"
| "dict_set ((k', v') # d) k v =
     (if k' = k then (k, v) # d else (k', v') # dict_set d k v)"

definition dict_get :: "('k, 'v) dict \<Rightarrow> 'k \<Rightarrow> 'v \<Rightarrow> 'v" where
  "dict_get d k dflt = (case map_of d k of Some v \<Rightarrow> v | None \<Rightarrow> dflt)"

text \<open>\<open>{v: k for k, v in d.items()}\<close>.\<close>

definition dict_invert :: "('k, 'v) dict \<Rightarrow> ('v, 'k) dict" where
  "dict_invert d = foldl (\<lambda>acc (k, v). dict_set acc v k) [] d"

section \<open>The transcoder object\<close>

text \<open>One entry of the Cryptex dictionary file; a missing field reads as the empty
  string (\<open>entry.get("symbol", "")\<close>).\<close>

record entry =
  symbol :: string
  pyro_name :: string

record transcoder =
  cryptex_dict :: "entry list"
  symbol_to_codename :: "(string, string) dict"
  codename_to_symbol :: "(string, string) dict"
  module_mappings :: "(string, string) dict"

text \<open>\<open>_load_cryptex\<close>: the entries of the dictionary file, none when the file does not
  exist.\<close>

definition load_cryptex :: "entry list option \<Rightarrow> entry list" where
  "load_cryptex file = (case file of Some es \<Rightarrow> es | None \<Rightarrow> [])"

definition build_symbol_map :: "entry list \<Rightarrow> (string, string) dict" where
  "build_symbol_map es =
     foldl (\<lambda>m e. if symbol e \<noteq> [] \<and> pyro_name e \<noteq> [] then dict_set m (symbol e) (pyro_name e) else m)
       [] es"

definition default_module_mappings :: "(string, string) dict" where
  "default_module_mappings =
     [(''pe'', ''IronCurtain''), (''elf'', ''Ghostwire''), (''dotnet'', ''Netrunner''),
      (''macho'', ''Machinist''), (''dex'', ''Android''), (''hash'', ''Digest''),
      (''math'', ''Calculator''), (''time'', ''Chronometer''), (''string'', ''TextProcessor''),
      (''console'', ''Terminal''), (''cuckoo'', ''Sandbox''), (''magic'', ''FileType'')]"

text \<open>\<open>RuleTranscoder.__init__\<close>.\<close>

definition new_transcoder :: "entry list option \<Rightarrow> transcoder" where
  "new_transcoder file =
     (let d = load_cryptex file; m = build_symbol_map d
      in \<lparr>cryptex_dict = d, symbol_to_codename = m, codename_to_symbol = dict_invert m,
          module_mappings = default_module_mappings\<rparr>)"

definition translate_module_reference :: "transcoder \<Rightarrow> string \<Rightarrow> string" where
  "translate_module_reference t module_name =
     dict_get (module_mappings t) (py_lower module_name) (''Module-'' @ py_title module_name)"

section \<open>The regular expressions\<close>

text \<open>\<open>re.match(r'^\s*condition:\s*$', line, re.IGNORECASE)\<close> and the same for
  \<open>strings:\<close>: leading white space, the keyword in any case, and nothing but white space
  after it.\<close>

definition is_section_header :: "string \<Rightarrow> string \<Rightarrow> bool" where
  "is_section_header kw line =
     (let r = dropWhile is_space line
      in py_lower (take (length kw) r) = kw \<and> list_all is_space (drop (length kw) r))"

text \<open>\<open>re.match(r'^\s*(meta|rule):', line, re.IGNORECASE)\<close>.\<close>

definition is_meta_or_rule :: "string \<Rightarrow> bool" where
  "is_meta_or_rule line =
     (let r = dropWhile is_space line
      in py_lower (take 5 r) = ''meta:'' \<or> py_lower (take 5 r) = ''rule:'')"

text \<open>
  \<open>re.sub(r'\b(\w+)\.(\w+)', lambda m: f"{f(m.group(1))}.{m.group(2)}", line)\<close>.
  The scan goes left to right; \<open>prev\<close> says whether the character before the current
  position is a word character. A match can only start where a run of word characters
  starts (\<open>\b\<close>), takes the whole run, a dot and the whole run after it; the scan resumes
  after the match. Where no match starts, the character is copied.
\<close>

function sub_dotted :: "(string \<Rightarrow> string) \<Rightarrow> bool \<Rightarrow> string \<Rightarrow> string" where
  "sub_dotted f prev [] = []"
| "sub_dotted f prev (c # cs) =
     (if \<not> prev \<and> is_word c then
        (case dropWhile is_word (c # cs) of
           d # r2 \<Rightarrow>
             if d = CHR ''.'' \<and> takeWhile is_word r2 \<noteq> []
             then f (takeWhile is_word (c # cs)) @ ''.'' @ takeWhile is_word r2
                    @ sub_dotted f True (dropWhile is_word r2)
             else c # sub_dotted f True cs
         | [] \<Rightarrow> c # sub_dotted f True cs)
      else c # sub_dotted f (is_word c) cs)"
  by pat_completeness auto
termination
proof (relation "measure (\<lambda>(f, prev, s). length s)")
  fix f :: "string \<Rightarrow> string" and prev :: bool and c :: char and cs d r2
  assume h: "dropWhile is_word (c # cs) = d # r2"
  have "length (dropWhile is_word r2) \<le> length r2"
    by (rule length_dropWhile_le)
  moreover have "length (d # r2) \<le> length (c # cs)"
    using length_dropWhile_le [of is_word "c # cs"] h by simp
  ultimately show "((f, True, dropWhile is_word r2), (f, prev, c # cs))
      \<in> measure (\<lambda>(f, prev, s). length s)"
    by simp
qed auto

text \<open>
  \<open>re.sub(r'\b(\w+)\.(\w+)\s*\(', lambda m: f"{f(m.group(1))}.{m.group(2)}(", line)\<close>:
  as above, followed by any white space and an opening parenthesis. The replacement
  does not keep the white space before the parenthesis.
\<close>

function sub_call :: "(string \<Rightarrow> string) \<Rightarrow> bool \<Rightarrow> string \<Rightarrow> string" where
  "sub_call f prev [] = []"
| "sub_call f prev (c # cs) =
     (if \<not> prev \<and> is_word c then
        (case dropWhile is_word (c # cs) of
           d # r2 \<Rightarrow>
             (case dropWhile is_space (dropWhile is_word r2) of
                p # r3 \<Rightarrow>
                  if d = CHR ''.'' \<and> takeWhile is_word r2 \<noteq> [] \<and> p = CHR ''(''
                  then f (takeWhile is_word (c # cs)) @ ''.'' @ takeWhile is_word r2 @ ''(''
                         @ sub_call f False r3
                  else c # sub_call f True cs
              | [] \<Rightarrow> c # sub_call f True cs)
         | [] \<Rightarrow> c # sub_call f True cs)
      else c # sub_call f (is_word c) cs)"
  by pat_completeness auto
termination
proof (relation "measure (\<lambda>(f, prev, s). length s)")
  fix f :: "string \<Rightarrow> string" and prev :: bool and c :: char and cs d r2 p r3
  assume h: "dropWhile is_word (c # cs) = d # r2"
    and h2: "dropWhile is_space (dropWhile is_word r2) = p # r3"
  have "length (p # r3) \<le> length (dropWhile is_word r2)"
    using length_dropWhile_le [of is_space "dropWhile is_word r2"] h2 by simp
  moreover have "length (dropWhile is_word r2) \<le> length r2"
    by (rule length_dropWhile_le)
  moreover have "length (d # r2) \<le> length (c # cs)"
    using length_dropWhile_le [of is_word "c # cs"] h by simp
  ultimately show "((f, False, r3), (f, prev, c # cs))
      \<in> measure (\<lambda>(f, prev, s). length s)"
    by simp
qed auto

section \<open>Section tracking\<close>

text \<open>The two flags \<open>in_condition\<close> and \<open>in_strings\<close> that both transforms keep while
  they walk over the lines.\<close>

record sections =
  in_condition :: bool
  in_strings :: bool

definition no_section :: sections where
  "no_section = \<lparr>in_condition = False, in_strings = False\<rparr>"

definition detect_section :: "sections \<Rightarrow> string \<Rightarrow> sections" where
  "detect_section st line =
     (if is_section_header ''condition:'' line then \<lparr>in_condition = True, in_strings = False\<rparr>
      else if is_section_header ''strings:'' line then \<lparr>in_condition = False, in_strings = True\<rparr>
      else if is_meta_or_rule line then \<lparr>in_condition = False, in_strings = False\<rparr>
      else st)"

section \<open>\<open>_transcode_to_cryptex\<close>\<close>

text \<open>The two substitutions applied to a line of the condition section, one after the
  other.\<close>

definition translate_condition_line :: "transcoder \<Rightarrow> string \<Rightarrow> string" where
  "translate_condition_line t line =
     sub_call (translate_module_reference t) False
       (sub_dotted (translate_module_reference t) False line)"

text \<open>One pass of the loop body: the new flags and the lines appended to the output.\<close>

definition to_cryptex_line :: "transcoder \<Rightarrow> sections \<Rightarrow> string \<Rightarrow> sections \<times> string list" where
  "to_cryptex_line t st original_line =
     (let st' = detect_section st original_line;
          line = (if in_condition st' then translate_condition_line t original_line
                  else original_line)
      in (st', (if line \<noteq> original_line \<and> \<not> py_startswith ''//'' (py_strip line)
                then [''    // Original: '' @ py_strip original_line] else []) @ [line]))"

fun to_cryptex_lines :: "transcoder \<Rightarrow> sections \<Rightarrow> string list \<Rightarrow> string list" where
  "to_cryptex_lines t st [] = []"
| "to_cryptex_lines t st (l # ls) =
     snd (to_cryptex_line t st l) @ to_cryptex_lines t (fst (to_cryptex_line t st l)) ls"

definition transcode_to_cryptex :: "transcoder \<Rightarrow> string \<Rightarrow> string" where
  "transcode_to_cryptex t content =
     py_join ''\<newline>'' (to_cryptex_lines t no_section (py_split CHR ''\<newline>'' content))"

section \<open>\<open>_transcode_from_cryptex\<close>\<close>

definition original_marker :: string where
  "original_marker = ''// Original:''"

text \<open>
  \<open>re.search(r'// Original:\s*(.+)', line)\<close>, group 1. After the marker \<open>\s*\<close> takes
  the white space and gives it back one character at a time until \<open>.+\<close> finds a
  character that is not a line feed; \<open>.+\<close> then runs up to the next line feed. When
  nothing matches after this marker the search goes on to the right.
\<close>

definition original_payload :: "string \<Rightarrow> string option" where
  "original_payload rest =
     (case filter (\<lambda>j. j < length rest \<and> rest ! j \<noteq> CHR ''\<newline>'')
             (rev [0 ..< Suc (length (takeWhile is_space rest))]) of
        [] \<Rightarrow> None
      | j # _ \<Rightarrow> Some (takeWhile (\<lambda>c. c \<noteq> CHR ''\<newline>'') (drop j rest)))"

fun search_original :: "string \<Rightarrow> string option" where
  "search_original [] = None"
| "search_original (c # cs) =
     (if py_startswith original_marker (c # cs) then
        (case original_payload (drop (length original_marker) (c # cs)) of
           Some p \<Rightarrow> Some p
         | None \<Rightarrow> search_original cs)
      else search_original cs)"

text \<open>The loop over \<open>reverse_module_map.items()\<close>.\<close>

definition reverse_modules :: "(string, string) dict \<Rightarrow> string \<Rightarrow> string" where
  "reverse_modules rmap line =
     foldl (\<lambda>l (codename, module). if py_in codename l then py_replace codename module l else l)
       line rmap"

text \<open>The loop over \<open>codename_to_symbol.items()\<close>.\<close>

definition reverse_function :: "string \<Rightarrow> string \<times> string \<Rightarrow> string" where
  "reverse_function l cs =
     (case cs of (codename, symbol_name) \<Rightarrow>
        if py_in codename l then
          (let func_name = last (py_split CHR ''-'' codename)
           in if py_in func_name l \<and> symbol_name \<noteq> [] then
                (let original_func = (if py_in ''_'' symbol_name then last (py_split CHR ''_'' symbol_name)
                                      else symbol_name)
                 in py_replace func_name original_func l)
              else l)
        else l)"

definition reverse_functions :: "(string, string) dict \<Rightarrow> string \<Rightarrow> string" where
  "reverse_functions c2s line = foldl reverse_function line c2s"

definition reverse_line :: "transcoder \<Rightarrow> string \<Rightarrow> string" where
  "reverse_line t line =
     reverse_functions (codename_to_symbol t)
       (reverse_modules (dict_invert (module_mappings t)) line)"

fun from_cryptex_lines :: "transcoder \<Rightarrow> string list \<Rightarrow> string list" where
  "from_cryptex_lines t [] = []"
| "from_cryptex_lines t (l # ls) =
     (if py_in original_marker l then
        (case search_original l of Some p \<Rightarrow> [p] | None \<Rightarrow> [])
      else [reverse_line t l])
     @ from_cryptex_lines t ls"

definition transcode_from_cryptex :: "transcoder \<Rightarrow> string \<Rightarrow> string" where
  "transcode_from_cryptex t content =
     py_join ''\<newline>'' (from_cryptex_lines t (py_split CHR ''\<newline>'' content))"

definition transcode_rule_content :: "transcoder \<Rightarrow> string \<Rightarrow> string \<Rightarrow> string" where
  "transcode_rule_content t rule_content mode =
     (if mode = ''from_cryptex'' then transcode_from_cryptex t rule_content
      else transcode_to_cryptex t rule_content)"

section \<open>\<open>stream_transcode_lines\<close>\<close>

text \<open>The end of the loop body, shared by both directions: the tag when the line
  changed, then the line.\<close>

definition stream_emit :: "string \<Rightarrow> string \<Rightarrow> string list" where
  "stream_emit original_line processed_line =
     (if processed_line \<noteq> original_line \<and> \<not> py_startswith ''//'' (py_strip processed_line)
      then [''    // Original: '' @ original_line @ ''\<newline>''] else [])
     @ [processed_line @ ''\<newline>'']"

definition stream_line :: "transcoder \<Rightarrow> string \<Rightarrow> sections \<Rightarrow> string \<Rightarrow> sections \<times> string list" where
  "stream_line t mode st line =
     (let original_line = py_rstrip [CHR ''\<newline>'', CHR 0x0D] line;
          st' = detect_section st original_line
      in if mode = ''to_cryptex'' \<and> in_condition st' then
           (st', stream_emit original_line (translate_condition_line t original_line))
         else if mode = ''from_cryptex'' then
           (if py_in original_marker original_line then
              (st', case search_original original_line of
                      Some p \<Rightarrow> [p @ ''\<newline>''] | None \<Rightarrow> [])
            else (st', stream_emit original_line (reverse_line t original_line)))
         else (st', stream_emit original_line original_line))"

fun stream_lines_from :: "transcoder \<Rightarrow> string \<Rightarrow> sections \<Rightarrow> string list \<Rightarrow> string list" where
  "stream_lines_from t mode st [] = []"
| "stream_lines_from t mode st (l # ls) =
     snd (stream_line t mode st l) @ stream_lines_from t mode (fst (stream_line t mode st l)) ls"

text \<open>The generator run to its end on a finite input; its flags start cleared at every
  call.\<close>

definition stream_transcode_lines :: "transcoder \<Rightarrow> string list \<Rightarrow> string \<Rightarrow> string list" where
  "stream_transcode_lines t input_stream mode = stream_lines_from t mode no_section input_stream"

section \<open>\<open>stream_transcode_zip\<close>\<close>

text \<open>
  A \<open>Path\<close> is the list of its components; \<open>/\<close> appends a component. \<open>Path(s).name\<close>
  of an archive member name \<open>s\<close> is the text after its last slash (POSIX flavour; the
  members that pass the suffix filter never end in a slash or a dot component).
\<close>

type_synonym path = "string list"

definition path_name :: "string \<Rightarrow> string" where
  "path_name s = last (py_split CHR ''/'' s)"

definition path_parent :: "path \<Rightarrow> path" where
  "path_parent p = butlast p"

text \<open>\<open>Path.stem\<close>: the last component without its last suffix; a leading or a trailing
  dot starts no suffix.\<close>

definition path_stem :: "path \<Rightarrow> string" where
  "path_stem p =
     (let name = (if p = [] then [] else last p) in
      if CHR ''.'' \<in> set name then
        (let i = length name - Suc (length (takeWhile (\<lambda>c. c \<noteq> CHR ''.'') (rev name)))
         in if 0 < i \<and> i < length name - 1 then take i name else name)
      else name)"

datatype error = FileNotFoundError string | BadZipFile string | KeyError string | OSError string

text \<open>\<open>str(e)\<close>.\<close>

fun error_str :: "error \<Rightarrow> string" where
  "error_str (FileNotFoundError m) = m"
| "error_str (BadZipFile m) = m"
| "error_str (KeyError m) = m"
| "error_str (OSError m) = m"

text \<open>
  An archive is the list of its members in the order \<open>namelist()\<close> gives them, each with
  what \<open>zip_ref.read(name).decode('utf-8', errors='ignore')\<close> gives for it: the decoded
  text, or the exception \<open>read\<close> raises (a damaged or encrypted member). The decoding
  itself never raises.
\<close>

type_synonym archive = "(string \<times> (error + string)) list"

text \<open>\<open>read\<close> looks a name up in the archive's directory, where a later member of the
  same name has replaced an earlier one.\<close>

definition zip_read :: "archive \<Rightarrow> string \<Rightarrow> error + string" where
  "zip_read arch name =
     (case filter (\<lambda>m. fst m = name) arch of
        [] \<Rightarrow> Inl (KeyError name)
      | m # ms \<Rightarrow> snd (last (m # ms)))"

text \<open>
  The file system: the zip files (one that cannot be opened as an archive holds the
  exception \<open>ZipFile\<close> raises), the text files written so far in the order of their
  creation, the paths at which \<open>write_text\<close> raises and the directories \<open>mkdir\<close>
  cannot create, each with the exception raised. Paths are relative.
\<close>

record filesystem =
  zip_files :: "(path, error + archive) dict"
  text_files :: "(path, string) dict"
  unwritable :: "(path, error) dict"
  blocked_dirs :: "(path, error) dict"

definition write_text :: "filesystem \<Rightarrow> path \<Rightarrow> string \<Rightarrow> error + filesystem" where
  "write_text w p content =
     (case map_of (unwritable w) p of
        Some e \<Rightarrow> Inl e
      | None \<Rightarrow> Inr (w\<lparr>text_files := dict_set (text_files w) p content\<rparr>))"

text \<open>The progress dictionaries, one constructor for each \<open>status\<close>; \<open>progress\<close> is kept
  as the pair of its two numbers.\<close>

datatype event =
    Started nat path
  | Processing string path nat nat
  | Error string string
  | Completed nat nat path

text \<open>The body of the \<open>for file_info in file_list\<close> loop with its \<open>try\<close>: the event
  yielded, the new \<open>transcoded_count\<close> and the new file system.\<close>

definition zip_entry :: "transcoder \<Rightarrow> archive \<Rightarrow> path \<Rightarrow> string \<Rightarrow> nat \<Rightarrow> string
    \<Rightarrow> nat \<times> filesystem \<Rightarrow> event \<times> nat \<times> filesystem" where
  "zip_entry t arch output_dir mode total_files file_info st =
     (case st of (transcoded_count, w) \<Rightarrow>
        (case zip_read arch file_info of
           Inl e \<Rightarrow> (Error file_info (error_str e), transcoded_count, w)
         | Inr content \<Rightarrow>
             (let lines = py_split CHR ''\<newline>'' content;
                  transcoded_lines = stream_transcode_lines t lines mode;
                  transcoded_content = concat transcoded_lines;
                  output_file = output_dir @ [path_name file_info]
              in case write_text w output_file transcoded_content of
                   Inl e \<Rightarrow> (Error file_info (error_str e), transcoded_count, w)
                 | Inr w' \<Rightarrow>
                     (Processing file_info output_file (Suc transcoded_count) total_files,
                      Suc transcoded_count, w'))))"

fun zip_entries :: "transcoder \<Rightarrow> archive \<Rightarrow> path \<Rightarrow> string \<Rightarrow> nat \<Rightarrow> string list
    \<Rightarrow> nat \<times> filesystem \<Rightarrow> event list \<times> nat \<times> filesystem" where
  "zip_entries t arch output_dir mode total_files [] st = ([], st)"
| "zip_entries t arch output_dir mode total_files (file_info # rest) st =
     (case zip_entry t arch output_dir mode total_files file_info st of
        (ev, st') \<Rightarrow>
          (case zip_entries t arch output_dir mode total_files rest st' of
             (evs, st'') \<Rightarrow> (ev # evs, st'')))"

definition is_rule_file :: "string \<Rightarrow> bool" where
  "is_rule_file f = (py_endswith ''.yar'' f \<or> py_endswith ''.yara'' f)"

text \<open>\<open>output_dir\<close> after the \<open>if output_dir is None\<close> default.\<close>

definition resolve_output_dir :: "path \<Rightarrow> path option \<Rightarrow> path" where
  "resolve_output_dir zip_path output_dir_arg =
     (case output_dir_arg of
        None \<Rightarrow> path_parent zip_path @ [path_stem zip_path @ ''_transcoded'']
      | Some d \<Rightarrow> d)"

text \<open>
  The generator run to its end: the exception it raises before its first event, or the
  events it yields and the file system it leaves.
\<close>

definition stream_transcode_zip :: "transcoder \<Rightarrow> filesystem \<Rightarrow> path \<Rightarrow> path option \<Rightarrow> string
    \<Rightarrow> error + event list \<times> filesystem" where
  "stream_transcode_zip t w zip_path output_dir_arg mode =
     (case map_of (zip_files w) zip_path of
        None \<Rightarrow> Inl (FileNotFoundError (''Zip file not found: '' @ py_join ''/'' zip_path))
      | Some opened \<Rightarrow>
          (let output_dir = resolve_output_dir zip_path output_dir_arg
           in case map_of (blocked_dirs w) output_dir of
                Some e \<Rightarrow> Inl e
              | None \<Rightarrow>
                  (case opened of
                     Inl e \<Rightarrow> Inl e
                   | Inr arch \<Rightarrow>
                       (let file_list = filter is_rule_file (map fst arch);
                            total_files = length file_list
                        in case zip_entries t arch output_dir mode total_files file_list (0, w) of
                             (evs, transcoded_count, w') \<Rightarrow>
                               Inr (Started total_files zip_path # evs
                                      @ [Completed total_files transcoded_count output_dir], w')))))"

section \<open>Transcoders and inputs of the scenarios\<close>

text \<open>A transcoder whose dictionary file does not exist: only the module table.\<close>

definition plain_transcoder :: transcoder where
  "plain_transcoder = new_transcoder None"

text \<open>The dictionary of scenario A: the one entry \<open>pe_get_section\<close>, codename
  \<open>IronCurtain-Section\<close>.\<close>

definition scenario_a :: transcoder where
  "scenario_a =
     new_transcoder (Some [\<lparr>symbol = ''pe_get_section'', pyro_name = ''IronCurtain-Section''\<rparr>])"

text \<open>A dictionary whose one codename, \<open>Androids\<close>, begins with the module alias
  \<open>Android\<close>.\<close>

definition androids_transcoder :: transcoder where
  "androids_transcoder = new_transcoder (Some [\<lparr>symbol = ''foo'', pyro_name = ''Androids''\<rparr>])"

text \<open>A dictionary whose one codename, \<open>Curtain-Section\<close>, holds no module alias.\<close>

definition curtain_transcoder :: transcoder where
  "curtain_transcoder =
     new_transcoder (Some [\<lparr>symbol = ''pe_get_section'', pyro_name = ''Curtain-Section''\<rparr>])"

text \<open>A line is a malformed tag when it holds the marker and the payload pattern finds
  nothing after it.\<close>

definition malformed_tag :: "string \<Rightarrow> bool" where
  "malformed_tag line = (py_in original_marker line \<and> search_original line = None)"

text \<open>An archive of three rule files and a text file; the second rule file is damaged
  and \<open>read\<close> raises on it. Nothing has been written yet.\<close>

definition three_rule_archive :: archive where
  "three_rule_archive =
     [(''a.yar'', Inr ''rule: a''),
      (''b.yar'', Inl (BadZipFile ''Bad CRC-32 for file b.yar'')),
      (''notes.txt'', Inr ''no rule''),
      (''c.yara'', Inr ''rule: c'')]"

definition three_rule_fs :: filesystem where
  "three_rule_fs =
     \<lparr>zip_files = [([''rules.zip''], Inr three_rule_archive)],
      text_files = [], unwritable = [], blocked_dirs = []\<rparr>"

text \<open>An archive with two rule files of the same base name in two folders.\<close>

definition colliding_archive :: archive where
  "colliding_archive = [(''a/x.yar'', Inr ''rule: a''), (''b/x.yar'', Inr ''rule: b'')]"

definition colliding_fs :: filesystem where
  "colliding_fs =
     \<lparr>zip_files = [([''rules.zip''], Inr colliding_archive)],
      text_files = [], unwritable = [], blocked_dirs = []\<rparr>"


text \<open>The number of characters of a string that are not white space.\<close>

definition count_non_space :: "string \<Rightarrow> nat" where
  "count_non_space s = length (filter (\<lambda>c. \<not> is_space c) s)"

section \<open>The round trip\<close>

text \<open>
  Claim C1 (round-trip law). The reverse transform applied to the output of the forward
  transform should give the rule text back. On the two-line rule below, whose only
  reference \<open>pe\<close> is in the module table, the code gives three lines: the tag's payload
  without its indentation, and then the substituted line as well.
\<close>

theorem round_trip_duplicates_line:
  "transcode_rule_content plain_transcoder
     (transcode_rule_content plain_transcoder
        ''condition:\<newline>    pe.number_of_sections > 5'' ''to_cryptex'') ''from_cryptex''
   = ''condition:\<newline>pe.number_of_sections > 5\<newline>    pe.number_of_sections > 5''"
  by code_simp

text \<open>
  Claim C2 (scenario A). The forward transform of the condition line
  \<open>pe.get_section(0) > 5\<close> should give the tag and \<open>IronCurtain.get_section(0) > 5\<close>,
  and the reverse transform of these two lines the one original line. The code's second
  substitution translates the alias \<open>IronCurtain\<close> once more, and its reverse transform
  answers with two lines.
\<close>

theorem scenario_a_evaluated:
  "transcode_rule_content scenario_a ''condition:\<newline>    pe.get_section(0) > 5'' ''to_cryptex''
     = ''condition:\<newline>    // Original: pe.get_section(0) > 5\<newline>    Module-Ironcurtain.get_section(0) > 5''
   \<and> transcode_rule_content scenario_a
       ''    // Original: pe.get_section(0) > 5\<newline>    IronCurtain.get_section(0) > 5''
       ''from_cryptex''
     = ''pe.get_section(0) > 5\<newline>    pe.get_section(0) > 5''"
  by code_simp

text \<open>
  Claim C3 (a tag and the line after it are consumed as a pair). The reverse transform
  should put the payload in place of the tag line and discard the line that follows.
  Both reverse paths keep the following line: \<open>_transcode_from_cryptex\<close> answers the
  pair with two lines, and \<open>stream_transcode_lines\<close> with three, as it tags the
  substituted line again.
\<close>

theorem tag_pair_not_consumed:
  "from_cryptex_lines plain_transcoder [''    // Original: pe.x'', ''    IronCurtain.x'']
     = [''pe.x'', ''    pe.x'']
   \<and> stream_transcode_lines plain_transcoder
       [''    // Original: pe.x\<newline>'', ''    IronCurtain.x\<newline>''] ''from_cryptex''
     = [''pe.x\<newline>'', ''    // Original:     IronCurtain.x\<newline>'', ''    pe.x\<newline>'']"
  by code_simp

text \<open>
  Claim C6 (scenario B, unknown module). \<open>foo\<close> is not in the module table and
  \<open>translate_module_reference\<close> gives \<open>Module-Foo\<close> for it; the forward transform of the
  condition line \<open>foo.bar(1)\<close> should be \<open>Module-Foo.bar(1)\<close>. The second substitution
  of the code finds \<open>Foo.bar(\<close> in that result and translates \<open>Foo\<close> again.
\<close>

theorem scenario_b_evaluated:
  "translate_module_reference plain_transcoder ''foo'' = ''Module-Foo''
   \<and> transcode_rule_content plain_transcoder ''condition:\<newline>foo.bar(1)'' ''to_cryptex''
     = ''condition:\<newline>    // Original: foo.bar(1)\<newline>Module-Module-Foo.bar(1)''
   \<and> stream_transcode_lines plain_transcoder [''condition:\<newline>'', ''foo.bar(1)\<newline>''] ''to_cryptex''
     = [''condition:\<newline>'', ''    // Original: foo.bar(1)\<newline>'', ''Module-Module-Foo.bar(1)\<newline>'']"
  by code_simp

section \<open>Lines with a tag whose payload is missing\<close>

lemma from_cryptex_lines_append:
  "from_cryptex_lines t (xs @ ys) = from_cryptex_lines t xs @ from_cryptex_lines t ys"
  by (induction xs) simp_all

lemma stream_line_from_cryptex_state:
  "snd (stream_line t ''from_cryptex'' st l) = snd (stream_line t ''from_cryptex'' st' l)"
  by (simp add: stream_line_def Let_def)

lemma stream_lines_from_cryptex_state:
  "stream_lines_from t ''from_cryptex'' st ls = stream_lines_from t ''from_cryptex'' st' ls"
proof (induction ls arbitrary: st st')
  case Nil
  show ?case by simp
next
  case (Cons l ls)
  have "snd (stream_line t ''from_cryptex'' st l) = snd (stream_line t ''from_cryptex'' st' l)"
    by (rule stream_line_from_cryptex_state)
  moreover have "stream_lines_from t ''from_cryptex'' (fst (stream_line t ''from_cryptex'' st l)) ls
      = stream_lines_from t ''from_cryptex'' (fst (stream_line t ''from_cryptex'' st' l)) ls"
    by (rule Cons.IH)
  ultimately show ?case by simp
qed

lemma stream_lines_from_append:
  "stream_lines_from t ''from_cryptex'' st (xs @ ys)
   = stream_lines_from t ''from_cryptex'' st xs @ stream_lines_from t ''from_cryptex'' st ys"
proof (induction xs arbitrary: st)
  case Nil
  show ?case by simp
next
  case (Cons x xs)
  show ?case
    using Cons.IH [of "fst (stream_line t ''from_cryptex'' st x)"]
      stream_lines_from_cryptex_state [of t "fst (stream_line t ''from_cryptex'' st x)" ys st]
    by simp
qed

lemma stream_line_malformed:
  "malformed_tag (py_rstrip [CHR ''\<newline>'', CHR 0x0D] l)
   \<Longrightarrow> snd (stream_line t ''from_cryptex'' st l) = []"
  by (simp add: stream_line_def Let_def malformed_tag_def)

text \<open>
  Claim C8 as stated (a tag whose payload cannot be parsed falls back to substitution and
  still yields a line) fails on the line \<open>// Original:\<close>: it holds the marker, the
  payload pattern finds nothing, and neither reverse path yields a line for it.
\<close>

theorem malformed_tag_dropped_counterexample:
  "py_in original_marker ''// Original:''
   \<and> search_original ''// Original:'' = None
   \<and> from_cryptex_lines plain_transcoder [''// Original:''] = []
   \<and> stream_transcode_lines plain_transcoder [''// Original:\<newline>''] ''from_cryptex'' = []"
  by code_simp

text \<open>
  Claim C8, amended. In the reverse direction a line that holds the marker and has no
  payload yields no output line: it is skipped, and the pass goes on as if the line were
  not there, in \<open>_transcode_from_cryptex\<close> and in \<open>stream_transcode_lines\<close> alike.
\<close>

theorem malformed_tag_skipped:
  "(malformed_tag l \<longrightarrow>
      from_cryptex_lines t (xs @ l # ys) = from_cryptex_lines t xs @ from_cryptex_lines t ys)
   \<and> (malformed_tag (py_rstrip [CHR ''\<newline>'', CHR 0x0D] l) \<longrightarrow>
      stream_transcode_lines t (xs @ l # ys) ''from_cryptex''
      = stream_transcode_lines t xs ''from_cryptex'' @ stream_transcode_lines t ys ''from_cryptex'')"
proof (intro conjI impI)
  assume "malformed_tag l"
  then have "from_cryptex_lines t [l] = []"
    by (simp add: malformed_tag_def)
  then show "from_cryptex_lines t (xs @ l # ys) = from_cryptex_lines t xs @ from_cryptex_lines t ys"
    using from_cryptex_lines_append [of t xs "[l] @ ys"] from_cryptex_lines_append [of t "[l]" ys]
    by simp
next
  assume m: "malformed_tag (py_rstrip [CHR ''\<newline>'', CHR 0x0D] l)"
  have "stream_lines_from t ''from_cryptex'' no_section (l # ys)
      = stream_lines_from t ''from_cryptex'' no_section ys"
    using stream_line_malformed [OF m, of t no_section]
      stream_lines_from_cryptex_state [of t "fst (stream_line t ''from_cryptex'' no_section l)" ys no_section]
    by simp
  then show "stream_transcode_lines t (xs @ l # ys) ''from_cryptex''
      = stream_transcode_lines t xs ''from_cryptex'' @ stream_transcode_lines t ys ''from_cryptex''"
    using stream_lines_from_append [of t no_section xs "l # ys"]
    by (simp add: stream_transcode_lines_def)
qed

theorem malformed_tag_skipped_witness:
  "malformed_tag ''  // Original:''
   \<and> from_cryptex_lines plain_transcoder ([''IronCurtain.a''] @ ''  // Original:'' # [''b''])
       = from_cryptex_lines plain_transcoder [''IronCurtain.a''] @ from_cryptex_lines plain_transcoder [''b'']
   \<and> from_cryptex_lines plain_transcoder [''IronCurtain.a'', ''  // Original:'', ''b''] = [''pe.a'', ''b'']"
proof -
  have m: "malformed_tag ''  // Original:''"
    by code_simp
  have e: "from_cryptex_lines plain_transcoder [''IronCurtain.a'', ''  // Original:'', ''b''] = [''pe.a'', ''b'']"
    by code_simp
  show ?thesis
    using m e malformed_tag_skipped [of "''  // Original:''" plain_transcoder "[''IronCurtain.a'']" "[''b'']"]
    by simp
qed

section \<open>Substitution in the reverse direction\<close>

lemma py_in_empty: "py_in [] s"
  by (cases s) (simp_all add: py_startswith_def)

lemma replace_from_absent: "\<not> py_in old s \<Longrightarrow> replace_from old new s = s"
  by (induction s) simp_all

lemma py_replace_absent: "\<not> py_in old s \<Longrightarrow> py_replace old new s = s"
  using py_in_empty [of s] by (auto simp: py_replace_def replace_from_absent)

text \<open>The test \<open>if codename in line\<close> before \<open>line.replace(codename, module)\<close> changes
  nothing: the loop over the module table is a chain of plain replacements.\<close>

lemma reverse_modules_plain:
  "reverse_modules rmap line
   = foldl (\<lambda>l (codename, module). py_replace codename module l) line rmap"
proof -
  have "(\<lambda>l (codename, module). if py_in codename l then py_replace codename module l else l)
      = (\<lambda>l (codename, module). py_replace codename module l)"
    by (intro ext) (simp add: py_replace_absent split: prod.splits)
  then show ?thesis
    by (simp add: reverse_modules_def)
qed

text \<open>The leftmost occurrence of \<open>old\<close> is replaced whatever stands before and after
  it.\<close>

lemma replace_from_leftmost:
  assumes "old \<noteq> []" and "\<not> py_in old (p @ butlast old)"
  shows "replace_from old new (p @ old @ s) = p @ new @ replace_from old new s"
  using assms(2)
proof (induction p)
  case Nil
  from assms(1) obtain c o' where o: "old = c # o'"
    by (cases old) auto
  have "py_startswith old (c # o' @ s)"
    by (simp add: py_startswith_def o)
  then show ?case
    by (simp add: o)
next
  case (Cons c p')
  from assms(1) obtain b x where o: "old = b @ [x]"
    by (cases old rule: rev_cases) auto
  have "take (length old) (c # p' @ old @ s) = take (length old) (c # p' @ butlast old)"
    by (simp add: o)
  moreover from Cons.prems have "\<not> py_startswith old (c # p' @ butlast old)"
    and absent: "\<not> py_in old (p' @ butlast old)"
    by simp_all
  ultimately have "\<not> py_startswith old (c # p' @ old @ s)"
    by (simp add: py_startswith_def)
  then show ?case
    using Cons.IH absent by simp
qed

text \<open>
  The loop over the codenames. \<open>sub in s\<close> says that \<open>s\<close> holds \<open>sub\<close> somewhere; the last
  part of a split is an end of the string split. So a line that holds a codename holds
  the codename's last part as well, and the name put in its place is the symbol's last
  part whether the symbol has an underscore or not: the body of the loop replaces, in a
  line that holds the codename of a symbol that is not empty, every occurrence of the
  codename's last part.
\<close>

lemma py_startswith_iff: "py_startswith sub s \<longleftrightarrow> (\<exists>q. s = sub @ q)"
proof
  assume "py_startswith sub s"
  then have "s = sub @ drop (length sub) s"
    by (metis append_take_drop_id py_startswith_def)
  then show "\<exists>q. s = sub @ q" ..
next
  assume "\<exists>q. s = sub @ q"
  then show "py_startswith sub s"
    by (auto simp: py_startswith_def)
qed

lemma py_in_iff: "py_in sub s \<longleftrightarrow> (\<exists>p q. s = p @ sub @ q)"
proof
  show "py_in sub s \<Longrightarrow> \<exists>p q. s = p @ sub @ q"
  proof (induction s)
    case Nil
    then show ?case by simp
  next
    case (Cons c cs)
    show ?case
    proof (cases "py_startswith sub (c # cs)")
      case True
      then obtain q where "c # cs = sub @ q"
        using py_startswith_iff by blast
      then have "c # cs = [] @ sub @ q"
        by simp
      then show ?thesis by blast
    next
      case False
      with Cons.prems have "py_in sub cs"
        by simp
      with Cons.IH obtain p q where "cs = p @ sub @ q"
        by blast
      then have "c # cs = (c # p) @ sub @ q"
        by simp
      then show ?thesis by blast
    qed
  qed
next
  assume "\<exists>p q. s = p @ sub @ q"
  then obtain p q where "s = p @ sub @ q"
    by blast
  then show "py_in sub s"
  proof (induction p arbitrary: s)
    case Nil
    then have st: "py_startswith sub s"
      using py_startswith_iff by auto
    show ?case
    proof (cases s)
      case Nil
      with \<open>s = [] @ sub @ q\<close> show ?thesis by simp
    next
      case (Cons c cs)
      with st show ?thesis by simp
    qed
  next
    case (Cons c p')
    then show ?case by simp
  qed
qed

lemma py_in_single: "py_in [d] s \<longleftrightarrow> d \<in> set s"
  by (induction s) (auto simp: py_startswith_def)

lemma py_split_not_Nil: "py_split d s \<noteq> []"
  by (induction s) (auto split: list.splits)

lemma py_split_no_separator: "d \<notin> set s \<Longrightarrow> py_split d s = [s]"
  by (induction s) (auto split: list.splits)

lemma py_split_single: "py_split d s = [w] \<Longrightarrow> w = s"
proof (induction s arbitrary: w)
  case Nil
  then show ?case by simp
next
  case (Cons c cs)
  show ?case
  proof (cases "c = d")
    case True
    with Cons.prems py_split_not_Nil [of d cs] show ?thesis
      by simp
  next
    case False
    obtain v vs where v: "py_split d cs = v # vs"
      using py_split_not_Nil [of d cs] by (cases "py_split d cs") auto
    with Cons.prems False have "w = c # v" and "vs = []"
      by simp_all
    with v Cons.IH [of v] show ?thesis
      by simp
  qed
qed

lemma last_py_split_suffix: "\<exists>a. s = a @ last (py_split d s)"
proof (induction s)
  case Nil
  show ?case by simp
next
  case (Cons c cs)
  from Cons.IH obtain a where a: "cs = a @ last (py_split d cs)"
    by blast
  obtain v vs where v: "py_split d cs = v # vs"
    using py_split_not_Nil [of d cs] by (cases "py_split d cs") auto
  show ?case
  proof (cases "c = d")
    case True
    then have "last (py_split d (c # cs)) = last (py_split d cs)"
      using py_split_not_Nil [of d cs] by simp
    with a have "c # cs = (c # a) @ last (py_split d (c # cs))"
      by simp
    then show ?thesis by blast
  next
    case False
    show ?thesis
    proof (cases "vs = []")
      case True
      with v have "v = cs"
        by (intro py_split_single [of d]) simp
      with v True False have "last (py_split d (c # cs)) = c # cs"
        by simp
      then have "c # cs = [] @ last (py_split d (c # cs))"
        by simp
      then show ?thesis by blast
    next
      case nonempty: False
      with v False have "last (py_split d (c # cs)) = last (py_split d cs)"
        by simp
      with a have "c # cs = (c # a) @ last (py_split d (c # cs))"
        by simp
      then show ?thesis by blast
    qed
  qed
qed

lemma py_in_last_part:
  assumes "py_in codename l"
  shows "py_in (last (py_split d codename)) l"
proof -
  from assms obtain p q where "l = p @ codename @ q"
    using py_in_iff by blast
  moreover obtain a where "codename = a @ last (py_split d codename)"
    using last_py_split_suffix by blast
  ultimately have "l = (p @ a) @ last (py_split d codename) @ q"
    by (metis append.assoc)
  then show ?thesis
    using py_in_iff by blast
qed

lemma original_func_plain:
  "(if py_in ''_'' s then last (py_split CHR ''_'' s) else s) = last (py_split CHR ''_'' s)"
  using py_in_single [of "CHR ''_''" s] py_split_no_separator [of "CHR ''_''" s] by auto

lemma reverse_function_plain:
  "reverse_function l (codename, symbol_name)
   = (if py_in codename l \<and> symbol_name \<noteq> []
      then py_replace (last (py_split CHR ''-'' codename)) (last (py_split CHR ''_'' symbol_name)) l
      else l)"
  using py_in_last_part [of codename l "CHR ''-''"]
  by (simp add: reverse_function_def Let_def original_func_plain)

lemma reverse_functions_plain:
  "reverse_functions c2s line
   = foldl (\<lambda>l (codename, symbol_name).
        if py_in codename l \<and> symbol_name \<noteq> []
        then py_replace (last (py_split CHR ''-'' codename))
               (last (py_split CHR ''_'' symbol_name)) l
        else l) line c2s"
proof -
  have "reverse_function
      = (\<lambda>l (codename, symbol_name).
           if py_in codename l \<and> symbol_name \<noteq> []
           then py_replace (last (py_split CHR ''-'' codename))
                  (last (py_split CHR ''_'' symbol_name)) l
           else l)"
    by (intro ext) (simp add: reverse_function_plain split: prod.splits)
  then show ?thesis
    by (simp add: reverse_functions_def)
qed

text \<open>
  Claim C7 as stated (whole-word, longest-match-first replacement) fails on the code.
  The alias \<open>Android\<close> is replaced inside the word \<open>MyAndroidApp\<close>; and with the
  codename \<open>Androids\<close> in the dictionary, the text \<open>Androids(1)\<close> is rewritten through
  the shorter alias \<open>Android\<close>, which the loop over the module table meets first (the
  result would be \<open>foo(1)\<close> with the longest match first).
\<close>

theorem reverse_whole_word_counterexample:
  "\<not> py_in original_marker ''MyAndroidApp''
   \<and> from_cryptex_lines plain_transcoder [''MyAndroidApp''] = [''MydexApp'']
   \<and> stream_transcode_lines plain_transcoder [''MyAndroidApp\<newline>''] ''from_cryptex''
     = [''    // Original: MyAndroidApp\<newline>'', ''MydexApp\<newline>'']
   \<and> codename_to_symbol androids_transcoder = [(''Androids'', ''foo'')]
   \<and> from_cryptex_lines androids_transcoder [''Androids(1)''] = [''dexs(1)'']"
  by code_simp

text \<open>
  Claim C7, amended. In the reverse transform a line without the marker yields one
  output line, made by plain substring replacement (\<open>str.replace\<close>) in the iteration
  order of the maps. First every module alias of the table, in table order, is replaced
  by its module name wherever it occurs. Then, for every codename of the dictionary in
  insertion order that occurs in the line as it then is and whose symbol is not empty,
  every occurrence of the codename's last \<open>-\<close>-separated part is replaced by the
  symbol's last \<open>_\<close>-separated part. \<open>str.replace\<close> is not anchored at word boundaries:
  the leftmost occurrence of the text sought is replaced whatever surrounds it. The
  streaming path yields the same line last.
\<close>

theorem reverse_substitution_plain:
  "(\<not> py_in original_marker l \<longrightarrow>
      from_cryptex_lines t [l]
      = [foldl (\<lambda>l (codename, symbol_name).
             if py_in codename l \<and> symbol_name \<noteq> []
             then py_replace (last (py_split CHR ''-'' codename))
                    (last (py_split CHR ''_'' symbol_name)) l
             else l)
           (foldl (\<lambda>l (codename, module). py_replace codename module l) l
              (dict_invert (module_mappings t)))
           (codename_to_symbol t)])
   \<and> (\<not> py_in original_marker (py_rstrip [CHR ''\<newline>'', CHR 0x0D] l) \<longrightarrow>
      last (stream_transcode_lines t [l] ''from_cryptex'')
      = foldl (\<lambda>l (codename, symbol_name).
             if py_in codename l \<and> symbol_name \<noteq> []
             then py_replace (last (py_split CHR ''-'' codename))
                    (last (py_split CHR ''_'' symbol_name)) l
             else l)
          (foldl (\<lambda>l (codename, module). py_replace codename module l)
             (py_rstrip [CHR ''\<newline>'', CHR 0x0D] l) (dict_invert (module_mappings t)))
          (codename_to_symbol t) @ ''\<newline>'')
   \<and> (old \<noteq> [] \<and> \<not> py_in old (p @ butlast old) \<longrightarrow>
      py_replace old new (p @ old @ s) = p @ new @ py_replace old new s)"
proof (intro conjI impI)
  assume "\<not> py_in original_marker l"
  then have "from_cryptex_lines t [l] = [reverse_line t l]"
    by simp
  then show "from_cryptex_lines t [l]
      = [foldl (\<lambda>l (codename, symbol_name).
             if py_in codename l \<and> symbol_name \<noteq> []
             then py_replace (last (py_split CHR ''-'' codename))
                    (last (py_split CHR ''_'' symbol_name)) l
             else l)
           (foldl (\<lambda>l (codename, module). py_replace codename module l) l
              (dict_invert (module_mappings t)))
           (codename_to_symbol t)]"
    unfolding reverse_line_def reverse_functions_plain reverse_modules_plain .
next
  assume "\<not> py_in original_marker (py_rstrip [CHR ''\<newline>'', CHR 0x0D] l)"
  then have "last (stream_transcode_lines t [l] ''from_cryptex'')
      = reverse_line t (py_rstrip [CHR ''\<newline>'', CHR 0x0D] l) @ ''\<newline>''"
    by (simp add: stream_transcode_lines_def stream_line_def Let_def stream_emit_def)
  then show "last (stream_transcode_lines t [l] ''from_cryptex'')
      = foldl (\<lambda>l (codename, symbol_name).
             if py_in codename l \<and> symbol_name \<noteq> []
             then py_replace (last (py_split CHR ''-'' codename))
                    (last (py_split CHR ''_'' symbol_name)) l
             else l)
          (foldl (\<lambda>l (codename, module). py_replace codename module l)
             (py_rstrip [CHR ''\<newline>'', CHR 0x0D] l) (dict_invert (module_mappings t)))
          (codename_to_symbol t) @ ''\<newline>''"
    unfolding reverse_line_def reverse_functions_plain reverse_modules_plain .
next
  assume "old \<noteq> [] \<and> \<not> py_in old (p @ butlast old)"
  then show "py_replace old new (p @ old @ s) = p @ new @ py_replace old new s"
    by (simp add: py_replace_def replace_from_leftmost)
qed

theorem reverse_substitution_plain_witness:
  "\<not> py_in original_marker ''Curtain-Section(0) > Sectional''
   \<and> codename_to_symbol curtain_transcoder = [(''Curtain-Section'', ''pe_get_section'')]
   \<and> \<not> py_in ''Section'' (''Curtain-'' @ butlast ''Section'')
   \<and> from_cryptex_lines curtain_transcoder [''Curtain-Section(0) > Sectional'']
     = [''Curtain-section(0) > sectional'']
   \<and> last (stream_transcode_lines curtain_transcoder [''Curtain-Section(0) > Sectional\<newline>'']
           ''from_cryptex'')
     = ''Curtain-section(0) > sectional\<newline>''
   \<and> py_replace ''Section'' ''section'' (''Curtain-'' @ ''Section'' @ ''(0) > Sectional'')
     = ''Curtain-'' @ ''section'' @ py_replace ''Section'' ''section'' ''(0) > Sectional''"
proof -
  have h1: "\<not> py_in original_marker ''Curtain-Section(0) > Sectional''"
    by code_simp
  have h2: "\<not> py_in original_marker
      (py_rstrip [CHR ''\<newline>'', CHR 0x0D] ''Curtain-Section(0) > Sectional\<newline>'')"
    by code_simp
  have h3: "''Section'' \<noteq> [] \<and> \<not> py_in ''Section'' (''Curtain-'' @ butlast ''Section'')"
    by code_simp
  have c2s: "codename_to_symbol curtain_transcoder = [(''Curtain-Section'', ''pe_get_section'')]"
    by code_simp
  have e1: "[foldl (\<lambda>l (codename, symbol_name).
             if py_in codename l \<and> symbol_name \<noteq> []
             then py_replace (last (py_split CHR ''-'' codename))
                    (last (py_split CHR ''_'' symbol_name)) l
             else l)
           (foldl (\<lambda>l (codename, module). py_replace codename module l)
              ''Curtain-Section(0) > Sectional''
              (dict_invert (module_mappings curtain_transcoder)))
           (codename_to_symbol curtain_transcoder)]
      = [''Curtain-section(0) > sectional'']"
    by code_simp
  have e2: "foldl (\<lambda>l (codename, symbol_name).
             if py_in codename l \<and> symbol_name \<noteq> []
             then py_replace (last (py_split CHR ''-'' codename))
                    (last (py_split CHR ''_'' symbol_name)) l
             else l)
          (foldl (\<lambda>l (codename, module). py_replace codename module l)
             (py_rstrip [CHR ''\<newline>'', CHR 0x0D] ''Curtain-Section(0) > Sectional\<newline>'')
             (dict_invert (module_mappings curtain_transcoder)))
          (codename_to_symbol curtain_transcoder) @ ''\<newline>''
      = ''Curtain-section(0) > sectional\<newline>''"
    by code_simp
  note c = reverse_substitution_plain
    [where l = "''Curtain-Section(0) > Sectional''" and t = curtain_transcoder
       and old = "''Section''" and p = "''Curtain-''" and new = "''section''"
       and s = "''(0) > Sectional''"]
  note d = reverse_substitution_plain
    [where l = "''Curtain-Section(0) > Sectional\<newline>''" and t = curtain_transcoder]
  from c h1 have c1: "from_cryptex_lines curtain_transcoder [''Curtain-Section(0) > Sectional'']
      = [''Curtain-section(0) > sectional'']"
    unfolding e1 by blast
  from d h2 have c2: "last (stream_transcode_lines curtain_transcoder
        [''Curtain-Section(0) > Sectional\<newline>''] ''from_cryptex'')
      = ''Curtain-section(0) > sectional\<newline>''"
    unfolding e2 by blast
  from c h3 have c3: "py_replace ''Section'' ''section'' (''Curtain-'' @ ''Section'' @ ''(0) > Sectional'')
      = ''Curtain-'' @ ''section'' @ py_replace ''Section'' ''section'' ''(0) > Sectional''"
    by blast
  from h1 c2s h3 c1 c2 c3 show ?thesis
    by blast
qed

section \<open>The archive batch processor\<close>

lemma map_of_dict_set: "map_of (dict_set d k v) = (map_of d)(k \<mapsto> v)"
  by (induction d) (auto simp: fun_eq_iff)

lemma zip_entry_ok:
  "zip_read arch f = Inr c \<Longrightarrow> map_of (unwritable w) (out @ [path_name f]) = None
   \<Longrightarrow> zip_entry t arch out mode tot f (n, w)
       = (Processing f (out @ [path_name f]) (Suc n) tot, Suc n,
          w\<lparr>text_files := dict_set (text_files w) (out @ [path_name f])
                            (concat (stream_transcode_lines t (py_split CHR ''\<newline>'' c) mode))\<rparr>)"
  by (simp add: zip_entry_def write_text_def Let_def)

lemma zip_entry_failed:
  "zip_read arch f = Inl e
   \<or> (zip_read arch f = Inr c \<and> map_of (unwritable w) (out @ [path_name f]) = Some e)
   \<Longrightarrow> zip_entry t arch out mode tot f (n, w) = (Error f (error_str e), n, w)"
  by (auto simp: zip_entry_def write_text_def Let_def)

lemma stream_transcode_zip_opened:
  "map_of (zip_files w) zip_path = Some (Inr arch)
   \<Longrightarrow> map_of (blocked_dirs w) (resolve_output_dir zip_path output_dir_arg) = None
   \<Longrightarrow> filter is_rule_file (map fst arch) = fl
   \<Longrightarrow> zip_entries t arch (resolve_output_dir zip_path output_dir_arg) mode (length fl) fl (0, w)
       = (evs, n, w')
   \<Longrightarrow> stream_transcode_zip t w zip_path output_dir_arg mode
       = Inr (Started (length fl) zip_path # evs
                @ [Completed (length fl) n (resolve_output_dir zip_path output_dir_arg)], w')"
  by (simp add: stream_transcode_zip_def Let_def)

text \<open>
  Claim C5 (partial-failure containment). An archive has three rule files; the first
  and the third can be read and written, the second raises when it is read or when its
  output is written. Then \<open>stream_transcode_zip\<close> yields one \<open>started\<close> event first, a
  \<open>processing\<close> event for the first file, one \<open>error\<close> event naming the second, a
  \<open>processing\<close> event for the third, and one \<open>completed\<close> event last with
  \<open>transcoded_files = 2\<close>; the outputs of the first and third file are written.
\<close>

theorem partial_failure_containment:
  assumes out: "out = resolve_output_dir zip_path output_dir_arg"
    and zip: "map_of (zip_files w) zip_path = Some (Inr arch)"
    and dir: "map_of (blocked_dirs w) out = None"
    and files: "filter is_rule_file (map fst arch) = [f1, f2, f3]"
    and r1: "zip_read arch f1 = Inr c1"
    and r3: "zip_read arch f3 = Inr c3"
    and w1: "map_of (unwritable w) (out @ [path_name f1]) = None"
    and w3: "map_of (unwritable w) (out @ [path_name f3]) = None"
    and fail2: "zip_read arch f2 = Inl e
                \<or> (zip_read arch f2 = Inr c2
                    \<and> map_of (unwritable w) (out @ [path_name f2]) = Some e)"
    and o1: "o1 = concat (stream_transcode_lines t (py_split CHR ''\<newline>'' c1) mode)"
    and o3: "o3 = concat (stream_transcode_lines t (py_split CHR ''\<newline>'' c3) mode)"
    and w': "w' = w\<lparr>text_files := dict_set (dict_set (text_files w) (out @ [path_name f1]) o1)
                                      (out @ [path_name f3]) o3\<rparr>"
  shows "stream_transcode_zip t w zip_path output_dir_arg mode
         = Inr ([Started 3 zip_path,
                 Processing f1 (out @ [path_name f1]) 1 3,
                 Error f2 (error_str e),
                 Processing f3 (out @ [path_name f3]) 2 3,
                 Completed 3 2 out], w')
         \<and> map_of (text_files w') (out @ [path_name f3]) = Some o3
         \<and> (path_name f1 \<noteq> path_name f3 \<longrightarrow> map_of (text_files w') (out @ [path_name f1]) = Some o1)"
proof -
  let ?w1 = "w\<lparr>text_files := dict_set (text_files w) (out @ [path_name f1]) o1\<rparr>"
  have e1: "zip_entry t arch out mode 3 f1 (0, w)
      = (Processing f1 (out @ [path_name f1]) (Suc 0) 3, Suc 0, ?w1)"
    using zip_entry_ok [OF r1 w1] o1 by simp
  have e2: "zip_entry t arch out mode 3 f2 (Suc 0, ?w1)
      = (Error f2 (error_str e), Suc 0, ?w1)"
    using fail2 by (intro zip_entry_failed [where c = c2]) simp
  have e3: "zip_entry t arch out mode 3 f3 (Suc 0, ?w1) = (Processing f3 (out @ [path_name f3]) 2 3, 2, w')"
    using zip_entry_ok [OF r3, where out = out and w = ?w1 and t = t and mode = mode and tot = 3 and n = "Suc 0"] w3 o3 w' by simp
  have loop: "zip_entries t arch out mode (length [f1, f2, f3]) [f1, f2, f3] (0, w)
      = ([Processing f1 (out @ [path_name f1]) 1 3,
          Error f2 (error_str e),
          Processing f3 (out @ [path_name f3]) 2 3], 2, w')"
    using e1 e2 e3 by (simp add: eval_nat_numeral)
  have run: "stream_transcode_zip t w zip_path output_dir_arg mode
      = Inr ([Started 3 zip_path,
                 Processing f1 (out @ [path_name f1]) 1 3,
                 Error f2 (error_str e),
                 Processing f3 (out @ [path_name f3]) 2 3,
                 Completed 3 2 out], w')"
    using stream_transcode_zip_opened
      [where zip_path = zip_path and output_dir_arg = output_dir_arg, folded out, OF zip dir files loop]
    by (simp add: eval_nat_numeral)
  have "map_of (text_files w') (out @ [path_name f3]) = Some o3"
    by (simp add: w' map_of_dict_set)
  moreover have "path_name f1 \<noteq> path_name f3 \<longrightarrow> map_of (text_files w') (out @ [path_name f1]) = Some o1"
    by (simp add: w' map_of_dict_set)
  ultimately show ?thesis
    using run by simp
qed


theorem partial_failure_containment_witness:
  "map_of (zip_files three_rule_fs) [''rules.zip''] = Some (Inr three_rule_archive)
   \<and> filter is_rule_file (map fst three_rule_archive) = [''a.yar'', ''b.yar'', ''c.yara'']
   \<and> zip_read three_rule_archive ''b.yar'' = Inl (BadZipFile ''Bad CRC-32 for file b.yar'')
   \<and> stream_transcode_zip plain_transcoder three_rule_fs [''rules.zip''] (Some [''out'']) ''to_cryptex''
     = Inr ([Started 3 [''rules.zip''],
             Processing ''a.yar'' [''out'', ''a.yar''] 1 3,
             Error ''b.yar'' ''Bad CRC-32 for file b.yar'',
             Processing ''c.yara'' [''out'', ''c.yara''] 2 3,
             Completed 3 2 [''out'']],
            three_rule_fs\<lparr>text_files := [([''out'', ''a.yar''], ''rule: a\<newline>''),
                                         ([''out'', ''c.yara''], ''rule: c\<newline>'')]\<rparr>)"
proof -
  have out: "[''out''] = resolve_output_dir [''rules.zip''] (Some [''out''])"
    by (simp add: resolve_output_dir_def)
  have zip: "map_of (zip_files three_rule_fs) [''rules.zip''] = Some (Inr three_rule_archive)"
    by (simp add: three_rule_fs_def three_rule_archive_def)
  have dir: "map_of (blocked_dirs three_rule_fs) [''out''] = None"
    by (simp add: three_rule_fs_def)
  have files: "filter is_rule_file (map fst three_rule_archive) = [''a.yar'', ''b.yar'', ''c.yara'']"
    by code_simp
  have r1: "zip_read three_rule_archive ''a.yar'' = Inr ''rule: a''"
    by code_simp
  have r2: "zip_read three_rule_archive ''b.yar'' = Inl (BadZipFile ''Bad CRC-32 for file b.yar'')"
    by code_simp
  have r3: "zip_read three_rule_archive ''c.yara'' = Inr ''rule: c''"
    by code_simp
  have w1: "map_of (unwritable three_rule_fs) ([''out''] @ [path_name ''a.yar'']) = None"
    by (simp add: three_rule_fs_def)
  have w3: "map_of (unwritable three_rule_fs) ([''out''] @ [path_name ''c.yara'']) = None"
    by (simp add: three_rule_fs_def)
  have fail2: "zip_read three_rule_archive ''b.yar'' = Inl (BadZipFile ''Bad CRC-32 for file b.yar'')
      \<or> (zip_read three_rule_archive ''b.yar'' = Inr []
          \<and> map_of (unwritable three_rule_fs) ([''out''] @ [path_name ''b.yar''])
            = Some (BadZipFile ''Bad CRC-32 for file b.yar''))"
    using r2 by simp
  have o1: "''rule: a\<newline>''
      = concat (stream_transcode_lines plain_transcoder (py_split CHR ''\<newline>'' ''rule: a'') ''to_cryptex'')"
    by code_simp
  have o3: "''rule: c\<newline>''
      = concat (stream_transcode_lines plain_transcoder (py_split CHR ''\<newline>'' ''rule: c'') ''to_cryptex'')"
    by code_simp
  have p1: "path_name ''a.yar'' = ''a.yar''"
    by code_simp
  have p3: "path_name ''c.yara'' = ''c.yara''"
    by code_simp
  have w': "three_rule_fs\<lparr>text_files := [([''out'', ''a.yar''], ''rule: a\<newline>''),
                                         ([''out'', ''c.yara''], ''rule: c\<newline>'')]\<rparr>
      = three_rule_fs\<lparr>text_files :=
          dict_set (dict_set (text_files three_rule_fs) ([''out''] @ [path_name ''a.yar'']) ''rule: a\<newline>'')
            ([''out''] @ [path_name ''c.yara'']) ''rule: c\<newline>''\<rparr>"
    by (simp add: three_rule_fs_def p1 p3)
  show ?thesis
    using partial_failure_containment [OF out zip dir files r1 r3 w1 w3 fail2 o1 o3 w'] zip files r2 p1 p3
    by simp
qed

lemma two_entries_same_name:
  assumes out: "out = resolve_output_dir zip_path output_dir_arg"
    and zip: "map_of (zip_files w) zip_path = Some (Inr arch)"
    and dir: "map_of (blocked_dirs w) out = None"
    and files: "filter is_rule_file (map fst arch) = [f1, f2]"
    and same: "path_name f1 = path_name f2"
    and r1: "zip_read arch f1 = Inr c1"
    and r2: "zip_read arch f2 = Inr c2"
    and wr: "map_of (unwritable w) (out @ [path_name f2]) = None"
    and empty: "text_files w = []"
  shows "stream_transcode_zip t w zip_path output_dir_arg mode
         = Inr ([Started 2 zip_path,
                 Processing f1 (out @ [path_name f1]) 1 2,
                 Processing f2 (out @ [path_name f2]) 2 2,
                 Completed 2 2 out],
                w\<lparr>text_files :=
                    [(out @ [path_name f2],
                      concat (stream_transcode_lines t (py_split CHR ''\<newline>'' c2) mode))]\<rparr>)"
proof -
  let ?o1 = "concat (stream_transcode_lines t (py_split CHR ''\<newline>'' c1) mode)"
  let ?o2 = "concat (stream_transcode_lines t (py_split CHR ''\<newline>'' c2) mode)"
  let ?w1 = "w\<lparr>text_files := [(out @ [path_name f2], ?o1)]\<rparr>"
  let ?w2 = "w\<lparr>text_files := [(out @ [path_name f2], ?o2)]\<rparr>"
  have e1: "zip_entry t arch out mode 2 f1 (0, w)
      = (Processing f1 (out @ [path_name f1]) (Suc 0) 2, Suc 0, ?w1)"
    using zip_entry_ok [OF r1, where out = out and w = w and t = t and mode = mode and tot = 2 and n = 0] wr same empty by simp
  have e2: "zip_entry t arch out mode 2 f2 (Suc 0, ?w1)
      = (Processing f2 (out @ [path_name f2]) 2 2, 2, ?w2)"
    using zip_entry_ok [OF r2, where out = out and w = ?w1 and t = t and mode = mode and tot = 2 and n = "Suc 0"] wr by simp
  have loop: "zip_entries t arch out mode (length [f1, f2]) [f1, f2] (0, w)
      = ([Processing f1 (out @ [path_name f1]) 1 2, Processing f2 (out @ [path_name f2]) 2 2],
         2, ?w2)"
    using e1 e2 by (simp add: eval_nat_numeral)
  show ?thesis
    using stream_transcode_zip_opened
      [where zip_path = zip_path and output_dir_arg = output_dir_arg, folded out, OF zip dir files loop]
    by (simp add: eval_nat_numeral)
qed


lemma zip_entry_path:
  "zip_entry t arch out mode tot f0 st = (Processing f q k n, st') \<Longrightarrow> q = out @ [path_name f]"
  by (cases st; cases "zip_read arch f0")
     (auto simp: zip_entry_def write_text_def Let_def split: option.splits)

lemma zip_entries_paths:
  "zip_entries t arch out mode tot fl st = (evs, st') \<Longrightarrow> Processing f q k n \<in> set evs
   \<Longrightarrow> q = out @ [path_name f]"
proof (induction fl arbitrary: st evs)
  case Nil
  then show ?case by simp
next
  case (Cons f0 fl)
  obtain ev st1 where e: "zip_entry t arch out mode tot f0 st = (ev, st1)"
    by (cases "zip_entry t arch out mode tot f0 st") auto
  obtain evs1 st2 where r0: "zip_entries t arch out mode tot fl st1 = (evs1, st2)"
    by (cases "zip_entries t arch out mode tot fl st1") auto
  from Cons.prems(1) e r0 have evs: "evs = ev # evs1" and "st2 = st'"
    by simp_all
  with r0 have r: "zip_entries t arch out mode tot fl st1 = (evs1, st')"
    by simp
  show ?case
  proof (cases "Processing f q k n = ev")
    case True
    with e show ?thesis
      using zip_entry_path [of t arch out mode tot f0 st f q k n st1] by simp
  next
    case False
    with Cons.prems(2) evs have "Processing f q k n \<in> set evs1"
      by auto
    with Cons.IH [OF r] show ?thesis .
  qed
qed

lemma stream_transcode_zip_paths:
  assumes "stream_transcode_zip t w zip_path output_dir_arg mode = Inr (evs, w')"
    and "Processing f q k n \<in> set evs"
  shows "q = resolve_output_dir zip_path output_dir_arg @ [path_name f]"
proof -
  obtain arch where zip: "map_of (zip_files w) zip_path = Some (Inr arch)"
  proof (cases "map_of (zip_files w) zip_path")
    case None
    with assms(1) show ?thesis
      by (simp add: stream_transcode_zip_def)
  next
    case (Some opened)
    show ?thesis
    proof (cases opened)
      case (Inl e)
      with Some assms(1) show ?thesis
        by (simp add: stream_transcode_zip_def Let_def split: option.splits)
    next
      case (Inr arch)
      with Some that show ?thesis
        by simp
    qed
  qed
  let ?out = "resolve_output_dir zip_path output_dir_arg"
  let ?fl = "filter is_rule_file (map fst arch)"
  obtain evs1 n1 w1 where loop: "zip_entries t arch ?out mode (length ?fl) ?fl (0, w) = (evs1, n1, w1)"
    by (cases "zip_entries t arch ?out mode (length ?fl) ?fl (0, w)") auto
  from assms(1) zip loop have "evs = Started (length ?fl) zip_path # evs1 @ [Completed (length ?fl) n1 ?out]"
    by (simp add: stream_transcode_zip_def Let_def split: option.splits)
  with assms(2) have "Processing f q k n \<in> set evs1"
    by auto
  with zip_entries_paths [OF loop] show ?thesis .
qed


text \<open>
  Claim C10 (output-path collision). The output path of every entry that is processed
  is the output directory joined with the base name of the entry alone. So when an
  archive holds two rule files with the same base name, both are written to one path:
  two entries are counted as transcoded, and the output directory, empty before, holds
  one file, with the output of the later entry.
\<close>

theorem output_path_collision:
  "(stream_transcode_zip t w zip_path output_dir_arg mode = Inr (evs, w')
      \<and> Processing f q k n \<in> set evs
    \<longrightarrow> q = resolve_output_dir zip_path output_dir_arg @ [path_name f])
   \<and> (map_of (zip_files w) zip_path = Some (Inr arch)
      \<and> map_of (blocked_dirs w) (resolve_output_dir zip_path output_dir_arg) = None
      \<and> filter is_rule_file (map fst arch) = [f1, f2]
      \<and> path_name f1 = path_name f2
      \<and> zip_read arch f1 = Inr c1 \<and> zip_read arch f2 = Inr c2
      \<and> map_of (unwritable w) (resolve_output_dir zip_path output_dir_arg @ [path_name f2]) = None
      \<and> text_files w = []
    \<longrightarrow> stream_transcode_zip t w zip_path output_dir_arg mode
        = Inr ([Started 2 zip_path,
                Processing f1 (resolve_output_dir zip_path output_dir_arg @ [path_name f1]) 1 2,
                Processing f2 (resolve_output_dir zip_path output_dir_arg @ [path_name f2]) 2 2,
                Completed 2 2 (resolve_output_dir zip_path output_dir_arg)],
               w\<lparr>text_files :=
                   [(resolve_output_dir zip_path output_dir_arg @ [path_name f2],
                     concat (stream_transcode_lines t (py_split CHR ''\<newline>'' c2) mode))]\<rparr>))"
proof (intro conjI impI)
  assume "stream_transcode_zip t w zip_path output_dir_arg mode = Inr (evs, w')
      \<and> Processing f q k n \<in> set evs"
  then show "q = resolve_output_dir zip_path output_dir_arg @ [path_name f]"
    using stream_transcode_zip_paths [of t w zip_path output_dir_arg mode evs w' f q k n] by simp
next
  assume h: "map_of (zip_files w) zip_path = Some (Inr arch)
      \<and> map_of (blocked_dirs w) (resolve_output_dir zip_path output_dir_arg) = None
      \<and> filter is_rule_file (map fst arch) = [f1, f2]
      \<and> path_name f1 = path_name f2
      \<and> zip_read arch f1 = Inr c1 \<and> zip_read arch f2 = Inr c2
      \<and> map_of (unwritable w) (resolve_output_dir zip_path output_dir_arg @ [path_name f2]) = None
      \<and> text_files w = []"
  show "stream_transcode_zip t w zip_path output_dir_arg mode
        = Inr ([Started 2 zip_path,
                Processing f1 (resolve_output_dir zip_path output_dir_arg @ [path_name f1]) 1 2,
                Processing f2 (resolve_output_dir zip_path output_dir_arg @ [path_name f2]) 2 2,
                Completed 2 2 (resolve_output_dir zip_path output_dir_arg)],
               w\<lparr>text_files :=
                   [(resolve_output_dir zip_path output_dir_arg @ [path_name f2],
                     concat (stream_transcode_lines t (py_split CHR ''\<newline>'' c2) mode))]\<rparr>)"
    by (rule two_entries_same_name [OF refl]) (use h in blast)+
qed

theorem output_path_collision_witness:
  "map_of (zip_files colliding_fs) [''rules.zip''] = Some (Inr colliding_archive)
   \<and> filter is_rule_file (map fst colliding_archive) = [''a/x.yar'', ''b/x.yar'']
   \<and> path_name ''a/x.yar'' = path_name ''b/x.yar''
   \<and> stream_transcode_zip plain_transcoder colliding_fs [''rules.zip''] None ''to_cryptex''
     = Inr ([Started 2 [''rules.zip''],
             Processing ''a/x.yar'' [''rules_transcoded'', ''x.yar''] 1 2,
             Processing ''b/x.yar'' [''rules_transcoded'', ''x.yar''] 2 2,
             Completed 2 2 [''rules_transcoded'']],
            colliding_fs\<lparr>text_files := [([''rules_transcoded'', ''x.yar''], ''rule: b\<newline>'')]\<rparr>)"
proof -
  have out: "resolve_output_dir [''rules.zip''] None = [''rules_transcoded'']"
    by code_simp
  have zip: "map_of (zip_files colliding_fs) [''rules.zip''] = Some (Inr colliding_archive)"
    by (simp add: colliding_fs_def)
  have dir: "map_of (blocked_dirs colliding_fs) (resolve_output_dir [''rules.zip''] None) = None"
    by (simp add: colliding_fs_def)
  have files: "filter is_rule_file (map fst colliding_archive) = [''a/x.yar'', ''b/x.yar'']"
    by code_simp
  have p1: "path_name ''a/x.yar'' = ''x.yar''"
    by code_simp
  have p2: "path_name ''b/x.yar'' = ''x.yar''"
    by code_simp
  have same: "path_name ''a/x.yar'' = path_name ''b/x.yar''"
    by (simp only: p1 p2)
  have r1: "zip_read colliding_archive ''a/x.yar'' = Inr ''rule: a''"
    by code_simp
  have r2: "zip_read colliding_archive ''b/x.yar'' = Inr ''rule: b''"
    by code_simp
  have wr: "map_of (unwritable colliding_fs) (resolve_output_dir [''rules.zip''] None @ [path_name ''b/x.yar'']) = None"
    by (simp add: colliding_fs_def)
  have empty: "text_files colliding_fs = []"
    by (simp add: colliding_fs_def)
  have o2: "concat (stream_transcode_lines plain_transcoder (py_split CHR ''\<newline>'' ''rule: b'') ''to_cryptex'')
      = ''rule: b\<newline>''"
    by code_simp
  have "stream_transcode_zip plain_transcoder colliding_fs [''rules.zip''] None ''to_cryptex''
      = Inr ([Started 2 [''rules.zip''],
              Processing ''a/x.yar'' (resolve_output_dir [''rules.zip''] None @ [path_name ''a/x.yar'']) 1 2,
              Processing ''b/x.yar'' (resolve_output_dir [''rules.zip''] None @ [path_name ''b/x.yar'']) 2 2,
              Completed 2 2 (resolve_output_dir [''rules.zip''] None)],
             colliding_fs\<lparr>text_files :=
                 [(resolve_output_dir [''rules.zip''] None @ [path_name ''b/x.yar''],
                   concat (stream_transcode_lines plain_transcoder
                             (py_split CHR ''\<newline>'' ''rule: b'') ''to_cryptex''))]\<rparr>)"
    using output_path_collision
      [where w = colliding_fs and zip_path = "[''rules.zip'']" and output_dir_arg = None
         and arch = colliding_archive and ?f1.0 = "''a/x.yar''" and ?f2.0 = "''b/x.yar''"
         and ?c1.0 = "''rule: a''" and ?c2.0 = "''rule: b''" and t = plain_transcoder
         and mode = "''to_cryptex''"]
      zip dir files same r1 r2 wr empty
    by blast
  then show ?thesis
    using zip files same unfolding out o2 p1 p2 by simp
qed

section \<open>Section scoping of the forward transform\<close>


lemma count_non_space_Nil [simp]: "count_non_space [] = 0"
  by (simp add: count_non_space_def)

lemma count_non_space_Cons:
  "count_non_space (c # cs) = (if is_space c then 0 else 1) + count_non_space cs"
  by (simp add: count_non_space_def)














































lemma count_non_space_word: "list_all is_word w \<Longrightarrow> count_non_space w = length w"
proof (induction w)
  case Nil
  show ?case by simp
next
  case (Cons c w)
  then have "is_word c"
    by simp
  then have "\<not> is_space c"
    by (auto simp: is_word_def is_cased_def is_upper_def is_lower_def is_digit_def is_space_def)
  with Cons show ?case
    by (simp add: count_non_space_Cons)
qed





end
